theory Spec2Isabelle
  imports Complex_Main "HOL-Library.Sublist" "HOL-Library.Char_ord" "HOL-Library.List_Lexorder"
begin

section \<open>Pulse: feedback ingestion and querying\<close>

text \<open>
  The worker of the Pulse repository answers five routes from one \<open>fetch\<close> handler. This
  theory embeds the three routes that carry decision logic
  (\<open>POST /feedback\<close>, \<open>GET /api/feedback\<close>, \<open>GET /api/insights\<close>) in both variants the
  repository holds: the worker backed by D1 and Workers AI (the handler printed in
  \<open>README.md\<close>) and the earlier in-memory worker (\<open>my-pulse-app/src/index.ts\<close>).

  Strings are HOL strings. A character stands for an ASCII code unit: the case mappings
  below change the letters A to Z and a to z only, and the white space characters are
  those of ASCII.
\<close>

subsection \<open>Strings as JavaScript uses them\<close>

definition is_upper :: "char \<Rightarrow> bool" where
  "is_upper c \<longleftrightarrow> 65 \<le> (of_char c :: nat) \<and> (of_char c :: nat) \<le> 90"

definition is_lower :: "char \<Rightarrow> bool" where
  "is_lower c \<longleftrightarrow> 97 \<le> (of_char c :: nat) \<and> (of_char c :: nat) \<le> 122"

definition toLowerCase_char :: "char \<Rightarrow> char" where
  "toLowerCase_char c = (if is_upper c then char_of ((of_char c :: nat) + 32) else c)"

definition toUpperCase_char :: "char \<Rightarrow> char" where
  "toUpperCase_char c = (if is_lower c then char_of ((of_char c :: nat) - 32) else c)"

definition toLowerCase :: "string \<Rightarrow> string" where
  "toLowerCase s = map toLowerCase_char s"

definition toUpperCase :: "string \<Rightarrow> string" where
  "toUpperCase s = map toUpperCase_char s"

text \<open>
  White space as \<open>String.prototype.trim\<close> and the regular expression class \<open>\s\<close> see it
  (tab, line feed, vertical tab, form feed, carriage return, space); the line terminators
  are the two of them that the regular expression \<open>.\<close> refuses.
\<close>

definition is_space :: "char \<Rightarrow> bool" where
  "is_space c \<longleftrightarrow> c \<in> set [CHR 0x09, CHR 0x0A, CHR 0x0B, CHR 0x0C, CHR 0x0D, CHR 0x20]"

definition is_line_terminator :: "char \<Rightarrow> bool" where
  "is_line_terminator c \<longleftrightarrow> c \<in> set [CHR 0x0A, CHR 0x0D]"

definition trim :: "string \<Rightarrow> string" where
  "trim s = rev (dropWhile is_space (rev (dropWhile is_space s)))"

text \<open>\<open>s.includes(w)\<close>: \<open>w\<close> occurs in \<open>s\<close> at some position.\<close>

fun str_includes :: "string \<Rightarrow> string \<Rightarrow> bool" where
  "str_includes [] w = (w = [])"
| "str_includes (c # cs) w = (prefix w (c # cs) \<or> str_includes cs w)"

text \<open>\<open>s.substring(0, 50)\<close>.\<close>

definition substring_0_50 :: "string \<Rightarrow> string" where
  "substring_0_50 s = take 50 s"

subsection \<open>Numbers and JSON values\<close>

text \<open>
  A JavaScript number is a finite double, taken by its exact value, an infinity or NaN.
  Only truthiness and the comparison \<open>>=\<close> are used by the worker.
\<close>

datatype number = NaN | NegInf | Fin rat | PosInf

fun num_truthy :: "number \<Rightarrow> bool" where
  "num_truthy NaN = False"
| "num_truthy (Fin r) = (r \<noteq> 0)"
| "num_truthy NegInf = True"
| "num_truthy PosInf = True"

fun num_ge :: "number \<Rightarrow> number \<Rightarrow> bool" where
  "num_ge NaN y = False"
| "num_ge x NaN = False"
| "num_ge PosInf y = True"
| "num_ge x NegInf = True"
| "num_ge NegInf y = False"
| "num_ge (Fin a) PosInf = False"
| "num_ge (Fin a) (Fin b) = (b \<le> a)"

text \<open>The literal \<open>0.6\<close> denotes the double nearest to six tenths.\<close>

definition threshold :: number where
  "threshold = Fin (5404319552844595 / 9007199254740992)"

text \<open>
  What \<open>request.json()\<close> yields. The value \<open>undefined\<close> of a property that is not there is
  \<open>None\<close> in \<open>json option\<close>.
\<close>

datatype json =
    JNull
  | JBool bool
  | JNum number
  | JStr string
  | JArr "json list"
  | JObj "(string \<times> json) list"

datatype exn = TypeError

text \<open>
  Reading a property: of \<open>null\<close> it throws; of an object it is the member of that name,
  the last one when the JSON text repeats the name; the other values have no property
  called \<open>text\<close> or \<open>source\<close>.
\<close>

fun get_prop :: "json \<Rightarrow> string \<Rightarrow> exn + json option" where
  "get_prop JNull k = Inl TypeError"
| "get_prop (JObj kvs) k = Inr (map_of (rev kvs) k)"
| "get_prop v k = Inr None"

fun truthy_json :: "json \<Rightarrow> bool" where
  "truthy_json JNull = False"
| "truthy_json (JBool b) = b"
| "truthy_json (JNum n) = num_truthy n"
| "truthy_json (JStr s) = (s \<noteq> [])"
| "truthy_json (JArr xs) = True"
| "truthy_json (JObj kvs) = True"

fun truthy :: "json option \<Rightarrow> bool" where
  "truthy None = False"
| "truthy (Some v) = truthy_json v"

text \<open>\<open>x ?? d\<close>: \<open>d\<close> when \<open>x\<close> is \<open>undefined\<close> or \<open>null\<close>.\<close>

fun nullish_or :: "json option \<Rightarrow> json \<Rightarrow> json" where
  "nullish_or None d = d"
| "nullish_or (Some JNull) d = d"
| "nullish_or (Some v) d = v"

record response =
  status :: nat
  body :: json

datatype outcome = Returned response | Threw exn

definition error_response :: "nat \<Rightarrow> string \<Rightarrow> response" where
  "error_response st msg = \<lparr>status = st, body = JObj [(''error'', JStr msg)]\<rparr>"

definition success_response :: response where
  "success_response = \<lparr>status = 200, body = JObj [(''success'', JBool True)]\<rparr>"

subsection \<open>Sentiment normalization (\<open>POST /feedback\<close>, D1 worker)\<close>

text \<open>
  The classifier's answer, as the handler casts it:
  \<open>Array<{ label?: string; score?: number }>\<close>.
\<close>

record ai_item =
  label :: "string option"
  score :: "number option"

text \<open>
  \<open>topResult && topResult.score && topResult.score >= 0.6 && topResult.label\<close> guards the
  assignment; the variable starts as \<open>"neutral"\<close>.
\<close>

definition normalize_sentiment :: "ai_item list \<Rightarrow> string" where
  "normalize_sentiment aiResult =
     (case aiResult of
        [] \<Rightarrow> ''neutral''
      | topResult # _ \<Rightarrow>
          (case score topResult of
             None \<Rightarrow> ''neutral''
           | Some sc \<Rightarrow>
               if num_truthy sc \<and> num_ge sc threshold then
                 (case label topResult of
                    None \<Rightarrow> ''neutral''
                  | Some l \<Rightarrow>
                      if l \<noteq> [] then
                        (if toUpperCase l = ''POSITIVE'' then ''positive'' else ''negative'')
                      else ''neutral'')
               else ''neutral''))"

text \<open>
  The rule in the words of the specification, for comparison: neutral when the top-ranked
  result is absent, or its score is below 0.6, or its label is missing; otherwise positive
  when the label is POSITIVE in any case, negative for any other label.
\<close>

fun num_less :: "number \<Rightarrow> number \<Rightarrow> bool" where
  "num_less NaN y = False"
| "num_less x NaN = False"
| "num_less PosInf y = False"
| "num_less x NegInf = False"
| "num_less NegInf y = True"
| "num_less (Fin a) PosInf = True"
| "num_less (Fin a) (Fin b) = (a < b)"

definition score_below :: "ai_item \<Rightarrow> bool" where
  "score_below r = (case score r of None \<Rightarrow> False | Some sc \<Rightarrow> num_less sc threshold)"

definition spec_normalize :: "ai_item list \<Rightarrow> string" where
  "spec_normalize aiResult =
     (case aiResult of
        [] \<Rightarrow> ''neutral''
      | topResult # _ \<Rightarrow>
          if score_below topResult \<or> label topResult = None then ''neutral''
          else if toUpperCase (the (label topResult)) = ''POSITIVE'' then ''positive''
          else ''negative'')"

subsection \<open>The D1 table and its two external capabilities\<close>

text \<open>
  The table of \<open>schema.sql\<close>: \<open>id\<close> is assigned by the engine, \<open>source\<close> and \<open>sentiment\<close> may
  be \<open>NULL\<close>. Both are declared \<open>TEXT\<close>: such a column holds \<open>NULL\<close>, a text or a blob (a
  number that is stored there is turned into text).
\<close>

datatype sqlval = SNull | SText string | SBlob "nat list"

record feedback_row =
  id_col :: nat
  text_col :: string
  source_col :: sqlval
  sentiment_col :: sqlval
  created_at :: string

text \<open>
  What a request can see and change: the rows, the last id the engine gave out, and the
  texts sent to the classifier so far.
\<close>

record world =
  rows :: "feedback_row list"
  last_id :: nat
  ai_calls :: "string list"

text \<open>
  What the request does not control: the answer of \<open>env.AI.run\<close> for a text (\<open>None\<close> when
  the call fails), whether \<open>env.DB\<close> can be reached, the clock read by
  \<open>new Date().toISOString()\<close>, and what a column of type \<open>TEXT\<close> holds after a number was
  bound to it (the engine's own rendering of the number, as \<open>5.0\<close> for 5).
\<close>

record env =
  ai_run :: "string \<Rightarrow> ai_item list option"
  db_up :: bool
  now :: string
  number_text :: "number \<Rightarrow> sqlval"

text \<open>
  \<open>bind\<close> accepts null, strings, numbers, booleans (bound as the numbers 1 and 0) and arrays
  whose members are all numbers from 0 up to, not including, 256, which are bound as the
  blob of these bytes; any other value is a type error of D1.
\<close>

fun byte_of :: "json \<Rightarrow> nat option" where
  "byte_of (JNum (Fin r)) = (if 0 \<le> r \<and> r < 256 then Some (nat \<lfloor>r\<rfloor>) else None)"
| "byte_of v = None"

fun bytes_of :: "json list \<Rightarrow> nat list option" where
  "bytes_of [] = Some []"
| "bytes_of (x # xs) =
     (case byte_of x of
        None \<Rightarrow> None
      | Some b \<Rightarrow> (case bytes_of xs of None \<Rightarrow> None | Some bs \<Rightarrow> Some (b # bs)))"

fun d1_bind :: "env \<Rightarrow> json \<Rightarrow> sqlval option" where
  "d1_bind e JNull = Some SNull"
| "d1_bind e (JBool b) = Some (number_text e (Fin (if b then 1 else 0)))"
| "d1_bind e (JNum n) = Some (number_text e n)"
| "d1_bind e (JStr s) = Some (SText s)"
| "d1_bind e (JArr xs) = (case bytes_of xs of None \<Rightarrow> None | Some bs \<Rightarrow> Some (SBlob bs))"
| "d1_bind e (JObj kvs) = None"

text \<open>
  \<open>INSERT INTO feedback (text, source, sentiment, created_at) VALUES (?, ?, ?, ?)\<close>: the
  statement fails when the database cannot be reached.
\<close>

definition d1_insert :: "env \<Rightarrow> world \<Rightarrow> string \<Rightarrow> sqlval \<Rightarrow> string \<Rightarrow> string \<Rightarrow> world option" where
  "d1_insert e w t src sent ts =
     (if db_up e then
        Some (w\<lparr>rows := rows w @
                 [\<lparr>id_col = Suc (last_id w), text_col = t, source_col = src,
                   sentiment_col = SText sent, created_at = ts\<rparr>],
               last_id := Suc (last_id w)\<rparr>)
      else None)"

subsection \<open>\<open>POST /feedback\<close>, D1 worker\<close>

text \<open>
  The second \<open>try\<close> block: classify, normalize, insert. Whatever is thrown inside is caught
  and answered with status 500.
\<close>

definition classify_and_store :: "env \<Rightarrow> world \<Rightarrow> json \<Rightarrow> string \<Rightarrow> outcome \<times> world" where
  "classify_and_store e w body' t =
     (let w1 = w\<lparr>ai_calls := ai_calls w @ [t]\<rparr> in
      case ai_run e t of
        None \<Rightarrow> (Returned (error_response 500 ''Failed to store feedback''), w1)
      | Some aiResult \<Rightarrow>
          (let sentiment = normalize_sentiment aiResult in
           case get_prop body' ''source'' of
             Inl ex \<Rightarrow> (Returned (error_response 500 ''Failed to store feedback''), w1)
           | Inr src \<Rightarrow>
               (case d1_bind e (nullish_or src JNull) of
                  None \<Rightarrow> (Returned (error_response 500 ''Failed to store feedback''), w1)
                | Some v \<Rightarrow>
                    (case d1_insert e w1 t v sentiment (now e) of
                       None \<Rightarrow> (Returned (error_response 500 ''Failed to store feedback''), w1)
                     | Some w2 \<Rightarrow> (Returned success_response, w2)))))"

text \<open>
  The request body is \<open>None\<close> when \<open>request.json()\<close> rejects. The test
  \<open>!body.text || body.text.trim() === ""\<close> stands outside both \<open>try\<close> blocks: what it throws
  leaves the handler.
\<close>

definition post_feedback :: "env \<Rightarrow> world \<Rightarrow> json option \<Rightarrow> outcome \<times> world" where
  "post_feedback e w req =
     (case req of
        None \<Rightarrow> (Returned (error_response 400 ''Invalid JSON''), w)
      | Some body' \<Rightarrow>
          (case get_prop body' ''text'' of
             Inl ex \<Rightarrow> (Threw ex, w)
           | Inr t \<Rightarrow>
               if \<not> truthy t then
                 (Returned (error_response 400 ''Missing or empty text field''), w)
               else
                 (case t of
                    Some (JStr s) \<Rightarrow>
                      if trim s = [] then
                        (Returned (error_response 400 ''Missing or empty text field''), w)
                      else classify_and_store e w body' s
                  | _ \<Rightarrow> (Threw TypeError, w))))"

subsection \<open>\<open>POST /feedback\<close>, in-memory worker\<close>

record feedback_entry =
  entry_text :: string
  entry_source :: json
  entry_createdAt :: string

text \<open>
  The whole handler is one \<open>try\<close> block whose \<open>catch\<close> answers 400 "Invalid JSON"; the
  store is the module-level array \<open>feedbackStore\<close>; the second argument is the clock.
\<close>

definition post_feedback_mem ::
    "string \<Rightarrow> feedback_entry list \<Rightarrow> json option \<Rightarrow> response \<times> feedback_entry list" where
  "post_feedback_mem ts feedbackStore req =
     (case req of
        None \<Rightarrow> (error_response 400 ''Invalid JSON'', feedbackStore)
      | Some body' \<Rightarrow>
          (case get_prop body' ''text'' of
             Inl ex \<Rightarrow> (error_response 400 ''Invalid JSON'', feedbackStore)
           | Inr t \<Rightarrow>
               if \<not> truthy t then
                 (error_response 400 ''Missing or empty text field'', feedbackStore)
               else
                 (case t of
                    Some (JStr s) \<Rightarrow>
                      if length (trim s) = 0 then
                        (error_response 400 ''Missing or empty text field'', feedbackStore)
                      else
                        (case get_prop body' ''source'' of
                           Inl ex \<Rightarrow> (error_response 400 ''Invalid JSON'', feedbackStore)
                         | Inr src \<Rightarrow>
                             (success_response,
                              feedbackStore @
                                [\<lparr>entry_text = s,
                                  entry_source = nullish_or src (JStr ''unknown''),
                                  entry_createdAt = ts\<rparr>]))
                  | _ \<Rightarrow> (error_response 400 ''Missing or empty text field'', feedbackStore))))"

text \<open>
  The dashboard's table cell for the source: \<open>item.source || 'unknown'\<close>. A blob comes back
  as an array, which is truthy.
\<close>

fun shown_source :: "sqlval \<Rightarrow> sqlval" where
  "shown_source SNull = SText ''unknown''"
| "shown_source (SText s) = (if s = [] then SText ''unknown'' else SText s)"
| "shown_source (SBlob bs) = SBlob bs"

subsection \<open>\<open>GET /api/insights\<close>\<close>

text \<open>
  The two regular expressions \<open>/about\s+(.+?)(?:\s|$)/i\<close> and \<open>/with\s+(.+?)(?:\s|$)/i\<close>
  differ in their first word only. A match is searched as the engine does it, by
  backtracking: at a start position the word is compared without regard to case; \<open>\s+\<close> is
  greedy and gives back one character at a time, down to one; the group \<open>(.+?)\<close> is lazy and
  grows one character at a time over characters that are no line terminators; after it
  comes a white space character or the end of the input. The first success is the match.
\<close>

fun first_some :: "('a \<Rightarrow> 'b option) \<Rightarrow> 'a list \<Rightarrow> 'b option" where
  "first_some f [] = None"
| "first_some f (x # xs) = (case f x of Some y \<Rightarrow> Some y | None \<Rightarrow> first_some f xs)"

definition followed_ok :: "string \<Rightarrow> bool" where
  "followed_ok r = (case r of [] \<Rightarrow> True | c # _ \<Rightarrow> is_space c)"

definition lazy_group :: "string \<Rightarrow> string option" where
  "lazy_group r =
     first_some (\<lambda>m. if followed_ok (drop m r) then Some (take m r) else None)
       [1 ..< Suc (length (takeWhile (\<lambda>c. \<not> is_line_terminator c) r))]"

definition match_here :: "string \<Rightarrow> string \<Rightarrow> string option" where
  "match_here word s =
     (if prefix (toUpperCase word) (toUpperCase s) then
        (let r = drop (length word) s in
         first_some (\<lambda>k. lazy_group (drop k r))
           (rev [1 ..< Suc (length (takeWhile is_space r))]))
      else None)"

text \<open>
  \<open>s.match(re)\<close> without the global flag: the leftmost start position that succeeds; the
  result is the text of group 1, \<open>None\<close> for \<open>null\<close>.
\<close>

fun regex_match :: "string \<Rightarrow> string \<Rightarrow> string option" where
  "regex_match word [] = match_here word []"
| "regex_match word (c # cs) =
     (case match_here word (c # cs) of Some g \<Rightarrow> Some g | None \<Rightarrow> regex_match word cs)"

record filters =
  sentiment :: "string option"
  keyword :: "string option"

definition detect_sentiment :: "string \<Rightarrow> string option" where
  "detect_sentiment lowerQuery =
     (if str_includes lowerQuery ''positive'' \<or> str_includes lowerQuery ''good''
         \<or> str_includes lowerQuery ''great'' \<or> str_includes lowerQuery ''excellent''
      then Some ''positive''
      else if str_includes lowerQuery ''negative'' \<or> str_includes lowerQuery ''bad''
         \<or> str_includes lowerQuery ''issue'' \<or> str_includes lowerQuery ''problem''
         \<or> str_includes lowerQuery ''bug''
      then Some ''negative''
      else if str_includes lowerQuery ''neutral'' then Some ''neutral''
      else None)"

definition interpret_query :: "string \<Rightarrow> filters" where
  "interpret_query query =
     (let lowerQuery = toLowerCase query;
          sent = detect_sentiment lowerQuery;
          aboutMatch = regex_match ''about'' lowerQuery;
          withMatch = regex_match ''with'' lowerQuery
      in \<lparr>sentiment = sent,
          keyword =
            (case aboutMatch of
               Some g \<Rightarrow> Some (substring_0_50 (trim g))
             | None \<Rightarrow>
                 (case withMatch of
                    Some g \<Rightarrow> Some (substring_0_50 (trim g))
                  | None \<Rightarrow>
                      if sent = None then Some (substring_0_50 (trim query)) else None))\<rparr>)"

fun opt_json :: "string option \<Rightarrow> json" where
  "opt_json None = JNull"
| "opt_json (Some s) = JStr s"

definition filters_json :: "filters \<Rightarrow> json" where
  "filters_json f =
     JObj [(''filters'',
            JObj [(''sentiment'', opt_json (sentiment f)), (''keyword'', opt_json (keyword f))])]"

text \<open>The argument is \<open>url.searchParams.get("q")\<close>, \<open>None\<close> for \<open>null\<close>.\<close>

definition get_api_insights :: "string option \<Rightarrow> response" where
  "get_api_insights q =
     (case q of
        None \<Rightarrow>
          error_response 400 (''Missing query parameter '' @ [CHR 0x27] @ ''q'' @ [CHR 0x27])
      | Some query \<Rightarrow>
          if query = [] then
            error_response 400 (''Missing query parameter '' @ [CHR 0x27] @ ''q'' @ [CHR 0x27])
          else \<lparr>status = 200, body = filters_json (interpret_query query)\<rparr>)"

subsection \<open>\<open>GET /api/feedback\<close>\<close>

text \<open>
  The statement is \<open>SELECT ... FROM feedback WHERE 1=1\<close>, extended by \<open>AND sentiment = ?\<close> and
  \<open>AND text LIKE ?\<close>, each with its binding, and closed by
  \<open>ORDER BY created_at DESC LIMIT 50\<close>.
\<close>

datatype cond = Sentiment_eq string | Text_like string

definition build_conds :: "string option \<Rightarrow> string option \<Rightarrow> cond list" where
  "build_conds sentiment_param keyword_param =
     (case sentiment_param of
        None \<Rightarrow> []
      | Some s \<Rightarrow> if s \<noteq> [] then [Sentiment_eq s] else [])
     @
     (case keyword_param of
        None \<Rightarrow> []
      | Some k \<Rightarrow> if k \<noteq> [] then [Text_like (''%'' @ k @ ''%'')] else [])"

text \<open>
  The operator \<open>LIKE\<close> of SQLite: in the pattern \<open>%\<close> stands for any run of characters, \<open>_\<close>
  for any one character, and any other character for itself, ASCII letters without regard
  to case. No escape character is declared.
\<close>

fun sql_like :: "string \<Rightarrow> string \<Rightarrow> bool" where
  "sql_like [] t = (t = [])"
| "sql_like (p # ps) [] = (p = CHR ''%'' \<and> sql_like ps [])"
| "sql_like (p # ps) (c # cs) =
     (if p = CHR ''%'' then sql_like ps (c # cs) \<or> sql_like (p # ps) cs
      else (p = CHR ''_'' \<or> toUpperCase_char p = toUpperCase_char c) \<and> sql_like ps cs)"

text \<open>
  D1 sets the longest pattern that \<open>LIKE\<close> accepts to 50 bytes. The operator checks the
  length when it is applied to a row: a longer pattern makes the statement fail with
  "LIKE or GLOB pattern too complex" (\<open>None\<close> below).
\<close>

definition like_pattern_limit :: nat where
  "like_pattern_limit = 50"

fun eval_cond :: "cond \<Rightarrow> feedback_row \<Rightarrow> bool option" where
  "eval_cond (Sentiment_eq s) r = Some (sentiment_col r = SText s)"
| "eval_cond (Text_like p) r =
     (if like_pattern_limit < length p then None else Some (sql_like p (text_col r)))"

text \<open>
  The terms of the \<open>WHERE\<close> clause are tested on a row in the order they were written, and
  the first one that is false ends the test of the row: a row of another sentiment never
  reaches \<open>LIKE\<close>.
\<close>

fun eval_where :: "cond list \<Rightarrow> feedback_row \<Rightarrow> bool option" where
  "eval_where [] r = Some True"
| "eval_where (c # cs) r =
     (case eval_cond c r of
        None \<Rightarrow> None
      | Some ok \<Rightarrow> if ok then eval_where cs r else Some False)"

text \<open>
  Rows in descending order of \<open>created_at\<close>, compared as text. The rows are read off the index
  \<open>idx_feedback_created_at\<close> of \<open>schema.sql\<close>, in which rows of equal time stand in the order
  of their ids, that is of their insertion.
\<close>

definition order_by_created_at_desc :: "feedback_row list \<Rightarrow> feedback_row list" where
  "order_by_created_at_desc rs = rev (sort_key created_at (rev rs))"

text \<open>
  The whole statement: \<open>None\<close> when it fails, else at most 50 rows. A pattern that is too
  long fails at the first row that reaches it, so before any row is returned.
\<close>

definition select_feedback :: "cond list \<Rightarrow> feedback_row list \<Rightarrow> feedback_row list option" where
  "select_feedback conds rs =
     (if list_ex (\<lambda>r. eval_where conds r = None) rs then None
      else Some (take 50
             (order_by_created_at_desc (filter (\<lambda>r. eval_where conds r = Some True) rs))))"

fun sqlval_json :: "sqlval \<Rightarrow> json" where
  "sqlval_json SNull = JNull"
| "sqlval_json (SText s) = JStr s"
| "sqlval_json (SBlob bs) = JArr (map (\<lambda>b. JNum (Fin (of_nat b))) bs)"

definition row_json :: "feedback_row \<Rightarrow> json" where
  "row_json r =
     JObj [(''id'', JNum (Fin (of_nat (id_col r)))), (''text'', JStr (text_col r)),
           (''source'', sqlval_json (source_col r)), (''sentiment'', sqlval_json (sentiment_col r)),
           (''created_at'', JStr (created_at r))]"

text \<open>The arguments are \<open>url.searchParams.get("sentiment")\<close> and \<open>get("keyword")\<close>.\<close>

definition get_api_feedback :: "env \<Rightarrow> world \<Rightarrow> string option \<Rightarrow> string option \<Rightarrow> response" where
  "get_api_feedback e w sentiment_param keyword_param =
     (if db_up e then
        (case select_feedback (build_conds sentiment_param keyword_param) (rows w) of
           None \<Rightarrow> error_response 500 ''Failed to retrieve feedback''
         | Some results \<Rightarrow>
             \<lparr>status = 200, body = JObj [(''feedback'', JArr (map row_json results))]\<rparr>)
      else error_response 500 ''Failed to retrieve feedback'')"

subsection \<open>Requests that ingestion must reject\<close>

text \<open>
  In the words of the specification: the \<open>text\<close> field is missing, is not a string, or
  trims to the empty string.
\<close>

definition text_invalid :: "json \<Rightarrow> bool" where
  "text_invalid b =
     (case get_prop b ''text'' of Inr (Some (JStr s)) \<Rightarrow> trim s = [] | _ \<Rightarrow> True)"

section \<open>Properties\<close>

subsection \<open>Strings\<close>

lemma str_includes_sublist: "str_includes s w \<longleftrightarrow> sublist w s"
  by (induction s) (simp_all add: sublist_Cons_right)

lemma not_upper_toLowerCase_char: "\<not> is_upper (toLowerCase_char c)"
  by (simp add: toLowerCase_char_def is_upper_def)

subsection \<open>Sentiment normalization\<close>

lemma num_ge_threshold_iff:
  "num_truthy sc \<and> num_ge sc threshold \<longleftrightarrow> \<not> (sc = NaN \<or> num_less sc threshold)"
  by (cases sc) (auto simp: threshold_def)

text \<open>
  Claim C1, as the code has it. The normalized sentiment is \<open>neutral\<close> when the top-ranked
  result is absent, or its score is missing, is NaN or is below 0.6, or its label is missing
  or the empty string; otherwise it is \<open>positive\<close> when the label in upper case is POSITIVE,
  and \<open>negative\<close> for any other label.
\<close>

theorem normalize_sentiment_rule:
  "normalize_sentiment aiResult =
     (case aiResult of
        [] \<Rightarrow> ''neutral''
      | topResult # others \<Rightarrow>
          if score topResult = None \<or> score topResult = Some NaN \<or> score_below topResult
             \<or> label topResult = None \<or> label topResult = Some []
          then ''neutral''
          else if toUpperCase (the (label topResult)) = ''POSITIVE'' then ''positive''
          else ''negative'')"
proof (cases aiResult)
  case Nil
  then show ?thesis by (simp add: normalize_sentiment_def)
next
  case (Cons topResult others)
  show ?thesis
  proof (cases "score topResult")
    case None
    with Cons show ?thesis by (simp add: normalize_sentiment_def)
  next
    case (Some sc)
    have "score_below topResult = num_less sc threshold"
      using Some by (simp add: score_below_def)
    with Cons Some num_ge_threshold_iff[of sc] show ?thesis
      by (cases "label topResult") (auto simp: normalize_sentiment_def)
  qed
qed

text \<open>
  The rule at a confident answer whose label is written in mixed case.
\<close>

theorem normalize_sentiment_rule_witness:
  "normalize_sentiment [\<lparr>label = Some ''Positive'', score = Some (Fin (9 / 10))\<rparr>] = ''positive''"
  using normalize_sentiment_rule [of "[\<lparr>label = Some ''Positive'', score = Some (Fin (9 / 10))\<rparr>]"]
  by (simp add: score_below_def threshold_def toUpperCase_def toUpperCase_char_def is_lower_def
      char_of_eq_iff)

text \<open>
  Claim C1 as the specification words it fails where the top result carries the label
  POSITIVE and no score: nothing is below 0.6 and the label is there, yet the code
  answers \<open>neutral\<close>.
\<close>

theorem normalize_sentiment_missing_score:
  "normalize_sentiment [\<lparr>label = Some ''POSITIVE'', score = None\<rparr>] = ''neutral''
   \<and> spec_normalize [\<lparr>label = Some ''POSITIVE'', score = None\<rparr>] = ''positive''"
  by code_simp

subsection \<open>Query interpretation: sentiment\<close>

text \<open>
  Claim C4. For every query, the sentiment found by the interpreter follows the fixed
  order positive, negative, neutral: it is \<open>positive\<close> if the lower-cased query contains any
  of "positive", "good", "great", "excellent"; else \<open>negative\<close> if it contains any of
  "negative", "bad", "issue", "problem", "bug"; else \<open>neutral\<close> if it contains "neutral";
  else it is unset. A query that is not empty is answered with these filters.
\<close>

theorem detect_sentiment_priority:
  "sentiment (interpret_query q) =
     (if sublist ''positive'' (toLowerCase q) \<or> sublist ''good'' (toLowerCase q)
         \<or> sublist ''great'' (toLowerCase q) \<or> sublist ''excellent'' (toLowerCase q)
      then Some ''positive''
      else if sublist ''negative'' (toLowerCase q) \<or> sublist ''bad'' (toLowerCase q)
         \<or> sublist ''issue'' (toLowerCase q) \<or> sublist ''problem'' (toLowerCase q)
         \<or> sublist ''bug'' (toLowerCase q)
      then Some ''negative''
      else if sublist ''neutral'' (toLowerCase q) then Some ''neutral''
      else None)
   \<and> (q \<noteq> [] \<longrightarrow>
        get_api_insights (Some q) = \<lparr>status = 200, body = filters_json (interpret_query q)\<rparr>)"
  by (simp add: interpret_query_def Let_def detect_sentiment_def str_includes_sublist
      get_api_insights_def)

text \<open>A query with words of all three groups is positive.\<close>

theorem detect_sentiment_priority_witness:
  "sentiment (interpret_query ''Good news, no bug is neutral'') = Some ''positive''
   \<and> get_api_insights (Some ''Good news, no bug is neutral'') =
       \<lparr>status = 200, body = filters_json (interpret_query ''Good news, no bug is neutral'')\<rparr>"
proof -
  have "sublist ''good'' (toLowerCase ''Good news, no bug is neutral'')"
    by code_simp
  then show ?thesis
    using detect_sentiment_priority [of "''Good news, no bug is neutral''"] by simp
qed

subsection \<open>Ingestion\<close>

lemma trim_nonempty: "trim t \<noteq> [] \<Longrightarrow> t \<noteq> []"
  by (auto simp: trim_def)

text \<open>
  Validation. The D1 worker answers 400 and changes nothing when \<open>text\<close> is missing, falsy
  or a string of white space; the in-memory worker answers 400 and changes nothing for
  every invalid \<open>text\<close>, since it also tests \<open>typeof body.text !== "string"\<close>.
\<close>

lemma post_feedback_rejects_missing_or_blank:
  assumes "get_prop b ''text'' = Inr t" and "\<not> truthy t \<or> (\<exists>s. t = Some (JStr s) \<and> trim s = [])"
  shows "post_feedback e w (Some b) =
           (Returned (error_response 400 ''Missing or empty text field''), w)"
  using assms
  by (auto simp: post_feedback_def)

lemma post_feedback_mem_rejects_invalid:
  assumes "text_invalid b"
  shows "\<exists>msg. post_feedback_mem ts st (Some b) = (error_response 400 msg, st)"
  using assms
  by (auto simp: post_feedback_mem_def text_invalid_def
      split: sum.splits option.splits json.splits)

text \<open>
  Claim C2 at the request body \<open>{"text": 123}\<close>. The text is not a string, so the request is
  one that must be rejected with status 400. The D1 worker has no \<open>typeof\<close> test: the number
  is truthy, \<open>body.text.trim\<close> is not a function, and the \<open>TypeError\<close> leaves the handler,
  which returns no response of its own. The classifier is not called and the table is
  unchanged.
\<close>

theorem post_feedback_number_text_throws:
  "text_invalid (JObj [(''text'', JNum (Fin 123))])
   \<and> post_feedback e w (Some (JObj [(''text'', JNum (Fin 123))])) = (Threw TypeError, w)"
  by (simp add: post_feedback_def text_invalid_def)

text \<open>
  Claim C5. When the classifier call fails on the text of a valid request, the D1 worker
  answers with status 500 and the error body, and writes nothing: the rows and the id
  counter are as before; only the call to the classifier is recorded.
\<close>

theorem classifier_failure_writes_nothing:
  assumes "get_prop b ''text'' = Inr (Some (JStr t))" and "trim t \<noteq> []"
      and "ai_run e t = None"
  shows "fst (post_feedback e w (Some b)) =
           Returned (error_response 500 ''Failed to store feedback'')
         \<and> rows (snd (post_feedback e w (Some b))) = rows w
         \<and> last_id (snd (post_feedback e w (Some b))) = last_id w
         \<and> ai_calls (snd (post_feedback e w (Some b))) = ai_calls w @ [t]"
  using assms trim_nonempty[of t]
  by (simp add: post_feedback_def classify_and_store_def Let_def)

text \<open>
  A classifier that always fails, an empty table, one valid request. No number is bound in
  this request or in those of the later examples, so the engine's rendering of numbers
  plays no part in them.
\<close>

theorem classifier_failure_writes_nothing_witness:
  "fst (post_feedback \<lparr>ai_run = (\<lambda>t. None), db_up = True, now = ''2026-01-01T00:00:00.000Z'',
           number_text = (\<lambda>n. SNull)\<rparr>
          \<lparr>rows = [], last_id = 0, ai_calls = []\<rparr>
          (Some (JObj [(''text'', JStr ''slow app'')]))) =
     Returned \<lparr>status = 500, body = JObj [(''error'', JStr ''Failed to store feedback'')]\<rparr>
   \<and> rows (snd (post_feedback \<lparr>ai_run = (\<lambda>t. None), db_up = True, now = ''2026-01-01T00:00:00.000Z'',
           number_text = (\<lambda>n. SNull)\<rparr>
          \<lparr>rows = [], last_id = 0, ai_calls = []\<rparr>
          (Some (JObj [(''text'', JStr ''slow app'')])))) = []"
proof -
  have "trim ''slow app'' \<noteq> []"
    by code_simp
  then show ?thesis
    using classifier_failure_writes_nothing
      [of "JObj [(''text'', JStr ''slow app'')]" "''slow app''"
          "\<lparr>ai_run = (\<lambda>t. None), db_up = True, now = ''2026-01-01T00:00:00.000Z'',
           number_text = (\<lambda>n. SNull)\<rparr>"
          "\<lparr>rows = [], last_id = 0, ai_calls = []\<rparr>"]
    by (simp add: error_response_def)
qed

text \<open>
  Claim C7, as the code has it. For a valid request that omits \<open>source\<close>, the D1 worker
  persists \<open>NULL\<close> in the column \<open>source\<close>, which the dashboard shows as "unknown"; the
  in-memory worker stores the string "unknown".
\<close>

theorem omitted_source_is_null:
  assumes "get_prop b ''text'' = Inr (Some (JStr t))" and "trim t \<noteq> []"
      and "get_prop b ''source'' = Inr None"
      and "ai_run e t = Some r" and "db_up e"
  shows "post_feedback e w (Some b) =
           (Returned success_response,
            w\<lparr>ai_calls := ai_calls w @ [t],
              rows := rows w @
                [\<lparr>id_col = Suc (last_id w), text_col = t, source_col = SNull,
                  sentiment_col = SText (normalize_sentiment r), created_at = now e\<rparr>],
              last_id := Suc (last_id w)\<rparr>)
         \<and> shown_source SNull = SText ''unknown''
         \<and> post_feedback_mem ts st (Some b) =
           (success_response,
            st @ [\<lparr>entry_text = t, entry_source = JStr ''unknown'', entry_createdAt = ts\<rparr>])"
  using assms trim_nonempty[of t]
  by (simp add: post_feedback_def classify_and_store_def Let_def d1_insert_def
      post_feedback_mem_def)

text \<open>A classifier that returns no result, an empty table, a request without \<open>source\<close>.\<close>

theorem omitted_source_is_null_witness:
  "post_feedback \<lparr>ai_run = (\<lambda>t. Some []), db_up = True, now = ''2026-01-01T00:00:00.000Z'',
           number_text = (\<lambda>n. SNull)\<rparr>
     \<lparr>rows = [], last_id = 0, ai_calls = []\<rparr> (Some (JObj [(''text'', JStr ''slow app'')])) =
     (Returned success_response,
      \<lparr>rows = [\<lparr>id_col = 1, text_col = ''slow app'', source_col = SNull,
                 sentiment_col = SText ''neutral'', created_at = ''2026-01-01T00:00:00.000Z''\<rparr>],
       last_id = 1, ai_calls = [''slow app'']\<rparr>)
   \<and> post_feedback_mem ''2026-01-01T00:00:00.000Z'' [] (Some (JObj [(''text'', JStr ''slow app'')])) =
     (success_response,
      [\<lparr>entry_text = ''slow app'', entry_source = JStr ''unknown'',
        entry_createdAt = ''2026-01-01T00:00:00.000Z''\<rparr>])"
proof -
  have "trim ''slow app'' \<noteq> []"
    by code_simp
  then show ?thesis
    using omitted_source_is_null
      [of "JObj [(''text'', JStr ''slow app'')]" "''slow app''"
          "\<lparr>ai_run = (\<lambda>t. Some []), db_up = True, now = ''2026-01-01T00:00:00.000Z'',
           number_text = (\<lambda>n. SNull)\<rparr>"
          "[]" "\<lparr>rows = [], last_id = 0, ai_calls = []\<rparr>"
          "''2026-01-01T00:00:00.000Z''" "[]"]
    by (simp add: normalize_sentiment_def)
qed

text \<open>
  Claim C7 as the specification words it fails on the D1 worker: the persisted source of
  that request is \<open>NULL\<close>, not the string "unknown".
\<close>

theorem omitted_source_not_unknown:
  "map source_col
     (rows (snd (post_feedback
        \<lparr>ai_run = (\<lambda>t. Some []), db_up = True, now = ''2026-01-01T00:00:00.000Z'',
           number_text = (\<lambda>n. SNull)\<rparr>
        \<lparr>rows = [], last_id = 0, ai_calls = []\<rparr>
        (Some (JObj [(''text'', JStr ''slow app'')]))))) = [SNull]"
  by code_simp

text \<open>
  Claim C8, as the code has it. An ingestion succeeds exactly when the text is valid, the
  classifier answers, the source can be bound and the database can be reached. It is then
  answered with status 200 and the body \<open>{success: true}\<close> and nothing else; the record the
  handler built (the text as sent, the bound source, the normalized sentiment, the time of
  the clock, the next id) is appended to the table and is not returned. No other request is
  answered with status 200.
\<close>

theorem success_answer_is_flag:
  "(get_prop b ''text'' = Inr (Some (JStr t)) \<and> trim t \<noteq> [] \<and> ai_run e t = Some ai
      \<and> get_prop b ''source'' = Inr src \<and> d1_bind e (nullish_or src JNull) = Some v \<and> db_up e
    \<longrightarrow> post_feedback e w (Some b) =
          (Returned success_response,
           w\<lparr>ai_calls := ai_calls w @ [t],
             rows := rows w @
               [\<lparr>id_col = Suc (last_id w), text_col = t, source_col = v,
                 sentiment_col = SText (normalize_sentiment ai), created_at = now e\<rparr>],
             last_id := Suc (last_id w)\<rparr>))
   \<and> (post_feedback e w req = (Returned r, w') \<and> status r = 200
    \<longrightarrow> r = success_response
        \<and> (\<exists>b t ai src v. req = Some b \<and> get_prop b ''text'' = Inr (Some (JStr t))
              \<and> trim t \<noteq> [] \<and> ai_run e t = Some ai \<and> get_prop b ''source'' = Inr src
              \<and> d1_bind e (nullish_or src JNull) = Some v \<and> db_up e
              \<and> w' = w\<lparr>ai_calls := ai_calls w @ [t],
                     rows := rows w @
                       [\<lparr>id_col = Suc (last_id w), text_col = t, source_col = v,
                         sentiment_col = SText (normalize_sentiment ai), created_at = now e\<rparr>],
                     last_id := Suc (last_id w)\<rparr>))"
proof (intro conjI impI)
  assume a: "get_prop b ''text'' = Inr (Some (JStr t)) \<and> trim t \<noteq> [] \<and> ai_run e t = Some ai
      \<and> get_prop b ''source'' = Inr src \<and> d1_bind e (nullish_or src JNull) = Some v \<and> db_up e"
  then have "t \<noteq> []" using trim_nonempty by blast
  with a show "post_feedback e w (Some b) =
          (Returned success_response,
           w\<lparr>ai_calls := ai_calls w @ [t],
             rows := rows w @
               [\<lparr>id_col = Suc (last_id w), text_col = t, source_col = v,
                 sentiment_col = SText (normalize_sentiment ai), created_at = now e\<rparr>],
             last_id := Suc (last_id w)\<rparr>)"
    by (simp add: post_feedback_def classify_and_store_def Let_def d1_insert_def)
next
  assume a: "post_feedback e w req = (Returned r, w') \<and> status r = 200"
  then show "r = success_response"
    by (auto simp: post_feedback_def classify_and_store_def Let_def d1_insert_def
        error_response_def
        split: option.splits sum.splits if_splits json.splits)
next
  assume a: "post_feedback e w req = (Returned r, w') \<and> status r = 200"
  then obtain b where b: "req = Some b"
    by (cases req) (auto simp: post_feedback_def error_response_def)
  from a b obtain t where t: "get_prop b ''text'' = Inr (Some (JStr t))" "trim t \<noteq> []"
    by (auto simp: post_feedback_def error_response_def
        split: option.splits sum.splits if_splits json.splits)
  then have tn: "t \<noteq> []" using trim_nonempty by blast
  from a b t tn have cs: "classify_and_store e w b t = (Returned r, w')"
    by (simp add: post_feedback_def)
  then obtain ai where ai: "ai_run e t = Some ai"
    using a by (cases "ai_run e t") (auto simp: classify_and_store_def Let_def error_response_def)
  from cs ai a obtain src where src: "get_prop b ''source'' = Inr src"
    by (cases "get_prop b ''source''")
       (auto simp: classify_and_store_def Let_def error_response_def)
  from cs ai src a obtain v where v: "d1_bind e (nullish_or src JNull) = Some v"
    by (cases "d1_bind e (nullish_or src JNull)")
       (auto simp: classify_and_store_def Let_def error_response_def)
  from cs ai src v a have up: "db_up e"
    by (cases "db_up e")
       (auto simp: classify_and_store_def Let_def error_response_def d1_insert_def)
  from cs ai src v up have "w' = w\<lparr>ai_calls := ai_calls w @ [t],
                     rows := rows w @
                       [\<lparr>id_col = Suc (last_id w), text_col = t, source_col = v,
                         sentiment_col = SText (normalize_sentiment ai), created_at = now e\<rparr>],
                     last_id := Suc (last_id w)\<rparr>"
    by (simp add: classify_and_store_def Let_def d1_insert_def)
  with b t ai src v up show "\<exists>b t ai src v. req = Some b \<and> get_prop b ''text'' = Inr (Some (JStr t))
              \<and> trim t \<noteq> [] \<and> ai_run e t = Some ai \<and> get_prop b ''source'' = Inr src
              \<and> d1_bind e (nullish_or src JNull) = Some v \<and> db_up e
              \<and> w' = w\<lparr>ai_calls := ai_calls w @ [t],
                     rows := rows w @
                       [\<lparr>id_col = Suc (last_id w), text_col = t, source_col = v,
                         sentiment_col = SText (normalize_sentiment ai), created_at = now e\<rparr>],
                     last_id := Suc (last_id w)\<rparr>"
    by blast
qed

text \<open>A valid request with a source, a confident classifier, an empty table.\<close>

theorem success_answer_is_flag_witness:
  "post_feedback
     \<lparr>ai_run = (\<lambda>t. Some [\<lparr>label = Some ''NEGATIVE'', score = Some (Fin (99 / 100))\<rparr>]),
      db_up = True, now = ''2026-01-01T00:00:00.000Z'', number_text = (\<lambda>n. SNull)\<rparr>
     \<lparr>rows = [], last_id = 0, ai_calls = []\<rparr>
     (Some (JObj [(''text'', JStr ''slow app''), (''source'', JStr ''web'')])) =
   (Returned \<lparr>status = 200, body = JObj [(''success'', JBool True)]\<rparr>,
    \<lparr>rows = [\<lparr>id_col = 1, text_col = ''slow app'', source_col = SText ''web'',
               sentiment_col = SText ''negative'', created_at = ''2026-01-01T00:00:00.000Z''\<rparr>],
     last_id = 1, ai_calls = [''slow app'']\<rparr>)"
proof -
  let ?e = "\<lparr>ai_run = (\<lambda>t. Some [\<lparr>label = Some ''NEGATIVE'', score = Some (Fin (99 / 100))\<rparr>]),
      db_up = True, now = ''2026-01-01T00:00:00.000Z'', number_text = (\<lambda>n. SNull)\<rparr>"
  let ?b = "JObj [(''text'', JStr ''slow app''), (''source'', JStr ''web'')]"
  have t: "trim ''slow app'' \<noteq> []"
    by code_simp
  have n: "normalize_sentiment [\<lparr>label = Some ''NEGATIVE'', score = Some (Fin (99 / 100))\<rparr>]
           = ''negative''"
    by code_simp
  have "get_prop ?b ''text'' = Inr (Some (JStr ''slow app''))"
       "get_prop ?b ''source'' = Inr (Some (JStr ''web''))"
       "d1_bind ?e (nullish_or (Some (JStr ''web'')) JNull) = Some (SText ''web'')"
    by simp_all
  with t show ?thesis
    using success_answer_is_flag
      [of ?b "''slow app''" ?e "[\<lparr>label = Some ''NEGATIVE'', score = Some (Fin (99 / 100))\<rparr>]"
          "Some (JStr ''web'')" "SText ''web''" "\<lparr>rows = [], last_id = 0, ai_calls = []\<rparr>"]
    by (simp add: n success_response_def)
qed

text \<open>
  Claim C8 as the specification words it fails: the body answered to a successful request
  is \<open>{success: true}\<close>, which has no \<open>text\<close> (nor any other field of the record).
\<close>

theorem success_answer_has_no_record:
  "fst (post_feedback \<lparr>ai_run = (\<lambda>t. Some []), db_up = True, now = ''2026-01-01T00:00:00.000Z'',
           number_text = (\<lambda>n. SNull)\<rparr>
     \<lparr>rows = [], last_id = 0, ai_calls = []\<rparr> (Some (JObj [(''text'', JStr ''slow app'')]))) =
   Returned \<lparr>status = 200, body = JObj [(''success'', JBool True)]\<rparr>
   \<and> get_prop (JObj [(''success'', JBool True)]) ''text'' = Inr None"
  by code_simp

subsection \<open>Query interpretation: keyword\<close>

lemma first_some_SomeD: "first_some f xs = Some y \<Longrightarrow> \<exists>x\<in>set xs. f x = Some y"
  by (induction xs) (auto split: option.splits)

lemma lazy_group_set: "lazy_group r = Some g \<Longrightarrow> set g \<subseteq> set r"
  by (auto simp: lazy_group_def dest!: first_some_SomeD split: if_splits dest: in_set_takeD)

lemma match_here_set:
  assumes "match_here word s = Some g"
  shows "set g \<subseteq> set s"
proof (cases "prefix (toUpperCase word) (toUpperCase s)")
  case True
  with assms have "first_some (\<lambda>k. lazy_group (drop k (drop (length word) s)))
      (rev [1 ..< Suc (length (takeWhile is_space (drop (length word) s)))]) = Some g"
    unfolding match_here_def Let_def by (simp only: if_True)
  then obtain k where "lazy_group (drop k (drop (length word) s)) = Some g"
    by (blast dest: first_some_SomeD)
  then have "set g \<subseteq> set (drop k (drop (length word) s))"
    by (rule lazy_group_set)
  then show ?thesis
    by (blast dest: in_set_dropD)
next
  case False
  with assms show ?thesis
    unfolding match_here_def by simp
qed

lemma regex_match_set: "regex_match word s = Some g \<Longrightarrow> set g \<subseteq> set s"
proof (induction s)
  case Nil
  then show ?case using match_here_set[of word "[]" g] by simp
next
  case (Cons c cs)
  then show ?case using match_here_set[of word "c # cs" g]
    by (auto split: option.splits)
qed

lemma set_trim: "set (trim s) \<subseteq> set s"
  by (auto simp: trim_def dest!: set_dropWhileD)


lemma capture_lower:
  assumes "regex_match word (toLowerCase q) = Some g" and "c \<in> set (substring_0_50 (trim g))"
  shows "\<not> is_upper c"
proof -
  from assms(2) have "c \<in> set g"
    using set_trim[of g] by (auto simp: substring_0_50_def dest: in_set_takeD)
  with regex_match_set[OF assms(1)] have "c \<in> set (toLowerCase q)" by blast
  then show ?thesis
    by (auto simp: toLowerCase_def not_upper_toLowerCase_char)
qed

lemma first_some_append_None:
  "(\<forall>x\<in>set xs. f x = None) \<Longrightarrow> first_some f (xs @ ys) = first_some f ys"
  by (induction xs) auto

lemma line_terminator_is_space: "is_line_terminator c \<Longrightarrow> is_space c"
  by (auto simp: is_line_terminator_def is_space_def)

lemma lazy_group_token:
  assumes "tok \<noteq> []" and "\<forall>c\<in>set tok. \<not> is_space c" and "followed_ok rest"
  shows "lazy_group (tok @ rest) = Some tok"
proof -
  let ?L = "length (takeWhile (\<lambda>c. \<not> is_line_terminator c) (tok @ rest))"
  let ?f = "\<lambda>m. if followed_ok (drop m (tok @ rest)) then Some (take m (tok @ rest)) else None"
  have "\<forall>c\<in>set tok. \<not> is_line_terminator c"
    using assms(2) line_terminator_is_space by blast
  then have "takeWhile (\<lambda>c. \<not> is_line_terminator c) (tok @ rest)
             = tok @ takeWhile (\<lambda>c. \<not> is_line_terminator c) rest"
    by (simp add: takeWhile_append2)
  then have len: "length tok \<le> ?L" by simp
  have pos: "1 \<le> length tok" using assms(1) by (cases tok) simp_all
  have "[1 ..< Suc ?L] = [1 ..< length tok] @ [length tok ..< Suc ?L]"
    using upt_add_eq_append[of 1 "length tok" "Suc ?L - length tok"] pos len by simp
  moreover have "[length tok ..< Suc ?L] = length tok # [Suc (length tok) ..< Suc ?L]"
    using len by (simp add: upt_conv_Cons)
  ultimately have split:
    "[1 ..< Suc ?L] = [1 ..< length tok] @ length tok # [Suc (length tok) ..< Suc ?L]"
    by simp
  have none: "\<forall>m\<in>set [1 ..< length tok]. ?f m = None"
  proof
    fix m assume "m \<in> set [1 ..< length tok]"
    then have m: "m < length tok" by simp
    then have "drop m (tok @ rest) = (tok ! m) # drop (Suc m) tok @ rest"
      by (simp add: Cons_nth_drop_Suc)
    moreover have "\<not> is_space (tok ! m)" using assms(2) m by simp
    ultimately show "?f m = None" by (simp add: followed_ok_def)
  qed
  have "?f (length tok) = Some tok" using assms(3) by simp
  with none split show ?thesis
    unfolding lazy_group_def by (simp add: first_some_append_None)
qed

lemma lazy_group_spaces:
  assumes "\<forall>c\<in>set x. is_space c" and "lazy_group x = Some g"
  shows "\<forall>c\<in>set g. is_space c"
  using lazy_group_set[OF assms(2)] assms(1) by blast

lemma match_here_token:
  assumes "prefix (toUpperCase word) (toUpperCase s)"
      and "drop (length word) s = ws @ tok @ rest"
      and "ws \<noteq> []" and "\<forall>c\<in>set ws. is_space c"
      and "tok \<noteq> []" and "\<forall>c\<in>set tok. \<not> is_space c" and "followed_ok rest"
  shows "match_here word s = Some tok"
proof -
  let ?r = "drop (length word) s"
  from assms(5,6) have "takeWhile is_space (tok @ rest) = []"
    by (cases tok) simp_all
  with assms(2,4) have tw: "takeWhile is_space ?r = ws"
    by (simp add: takeWhile_append2)
  have "1 \<le> length ws" using assms(3) by (cases ws) simp_all
  then have "rev [1 ..< Suc (length ws)] = length ws # rev [1 ..< length ws]"
    by simp
  moreover have "lazy_group (drop (length ws) ?r) = Some tok"
    using assms(2) lazy_group_token[OF assms(5,6,7)] by simp
  ultimately show ?thesis
    using assms(1) tw unfolding match_here_def Let_def by simp
qed

lemma match_here_cases:
  assumes "match_here word s = Some g"
  shows "(\<exists>ws rest. drop (length word) s = ws @ g @ rest \<and> ws \<noteq> [] \<and> (\<forall>c\<in>set ws. is_space c)
            \<and> g \<noteq> [] \<and> (\<forall>c\<in>set g. \<not> is_space c) \<and> followed_ok rest)
         \<or> ((\<forall>c\<in>set (drop (length word) s). is_space c) \<and> (\<forall>c\<in>set g. is_space c)
             \<and> drop (length word) s \<noteq> [])"
proof -
  let ?r = "drop (length word) s"
  let ?ws = "takeWhile is_space ?r"
  let ?after = "dropWhile is_space ?r"
  have pre: "prefix (toUpperCase word) (toUpperCase s)"
    using assms unfolding match_here_def by (simp split: if_splits)
  with assms have fs: "first_some (\<lambda>k. lazy_group (drop k ?r))
      (rev [1 ..< Suc (length ?ws)]) = Some g"
    unfolding match_here_def Let_def by (simp only: if_True)
  then have ws: "?ws \<noteq> []" by (cases "?ws") auto
  show ?thesis
  proof (cases "?after = []")
    case False
    let ?tok = "takeWhile (\<lambda>c. \<not> is_space c) ?after"
    let ?rest = "dropWhile (\<lambda>c. \<not> is_space c) ?after"
    have hd: "\<not> is_space (hd ?after)" using False hd_dropWhile by blast
    then have tok: "?tok \<noteq> []" using False by (cases ?after) simp_all
    have tokns: "\<forall>c\<in>set ?tok. \<not> is_space c" by (auto dest: set_takeWhileD)
    have rest: "followed_ok ?rest"
    proof (cases ?rest)
      case Nil
      show ?thesis unfolding followed_ok_def Nil by simp
    next
      case (Cons c cs)
      have "?rest \<noteq> []" unfolding Cons by simp
      then have "\<not> \<not> is_space (hd ?rest)" by (rule hd_dropWhile)
      then have "is_space c" unfolding Cons by simp
      then show ?thesis unfolding followed_ok_def Cons by simp
    qed
    have "?r = ?ws @ ?tok @ ?rest" by simp
    moreover have "\<forall>c\<in>set ?ws. is_space c" by (auto dest: set_takeWhileD)
    ultimately have "match_here word s = Some ?tok"
      using match_here_token[OF pre _ ws _ tok tokns rest] by blast
    with assms have "g = ?tok" by simp
    with \<open>?r = ?ws @ ?tok @ ?rest\<close> \<open>\<forall>c\<in>set ?ws. is_space c\<close> ws tok tokns rest
    show ?thesis by blast
  next
    case True
    then have all: "\<forall>c\<in>set ?r. is_space c"
      by (simp only: dropWhile_eq_Nil_conv)
    from fs obtain k where "lazy_group (drop k ?r) = Some g"
      by (blast dest: first_some_SomeD)
    moreover have "\<forall>c\<in>set (drop k ?r). is_space c" using all by (blast dest: in_set_dropD)
    ultimately have "\<forall>c\<in>set g. is_space c" using lazy_group_spaces by blast
    moreover have "?r \<noteq> []" using ws by auto
    ultimately show ?thesis using all by blast
  qed
qed

lemma trim_spaces:
  assumes "\<forall>c\<in>set g. is_space c"
  shows "trim g = []"
proof -
  have d: "dropWhile is_space g = []"
    using assms by (simp add: dropWhile_eq_Nil_conv)
  show ?thesis unfolding trim_def d by simp
qed

lemma trim_token: "g \<noteq> [] \<Longrightarrow> \<forall>c\<in>set g. \<not> is_space c \<Longrightarrow> trim g = g"
proof -
  assume a: "g \<noteq> []" "\<forall>c\<in>set g. \<not> is_space c"
  then have "dropWhile is_space g = g" by (cases g) simp_all
  moreover have "dropWhile is_space (rev g) = rev g"
  proof (cases "rev g")
    case Nil
    then show ?thesis by simp
  next
    case (Cons c cs)
    then have "c \<in> set g" by (metis list.set_intros(1) set_rev)
    with a Cons show ?thesis by simp
  qed
  ultimately show ?thesis by (simp add: trim_def)
qed

lemma is_space_toLowerCase_char: "is_space (toLowerCase_char c) = is_space c"
proof (cases "is_upper c")
  case False
  then show ?thesis by (simp add: toLowerCase_char_def)
next
  case True
  then have a: "\<not> is_space c"
    by (auto simp: is_space_def is_upper_def)
  have "(of_char (toLowerCase_char c) :: nat) = of_char c + 32"
    using True by (simp add: toLowerCase_char_def is_upper_def)
  then have "97 \<le> (of_char (toLowerCase_char c) :: nat)"
    using True by (simp add: is_upper_def)
  then have "\<not> is_space (toLowerCase_char c)"
    by (auto simp: is_space_def)
  with a show ?thesis by simp
qed

lemma regex_match_leftmost:
  assumes "regex_match word s = Some g"
  shows "\<exists>i\<le>length s. match_here word (drop i s) = Some g
           \<and> (\<forall>j<i. match_here word (drop j s) = None)"
  using assms
proof (induction s)
  case Nil
  then show ?case by simp
next
  case (Cons c cs)
  show ?case
  proof (cases "match_here word (c # cs)")
    case (Some h)
    with Cons.prems have "match_here word (drop 0 (c # cs)) = Some g" by simp
    then show ?thesis by blast
  next
    case None
    with Cons.prems have "regex_match word cs = Some g" by simp
    from Cons.IH[OF this] obtain i where i: "i \<le> length cs"
      "match_here word (drop i cs) = Some g" "\<forall>j<i. match_here word (drop j cs) = None"
      by blast
    have "\<forall>j<Suc i. match_here word (drop j (c # cs)) = None"
    proof (intro allI impI)
      fix j assume "j < Suc i"
      then show "match_here word (drop j (c # cs)) = None"
        using None i(3) by (cases j) simp_all
    qed
    moreover have "Suc i \<le> length (c # cs)" "match_here word (drop (Suc i) (c # cs)) = Some g"
      using i by simp_all
    ultimately show ?thesis by blast
  qed
qed

lemma match_here_word:
  assumes "match_here word s = Some g"
  shows "toUpperCase (take (length word) s) = toUpperCase word"
proof -
  have "prefix (toUpperCase word) (toUpperCase s)"
    using assms unfolding match_here_def by (simp split: if_splits)
  then obtain zs where "toUpperCase s = toUpperCase word @ zs"
    by (auto simp: prefix_def)
  then have "take (length word) (toUpperCase s) = toUpperCase word"
    by (simp add: toUpperCase_def)
  then show ?thesis by (simp add: toUpperCase_def take_map)
qed

text \<open>
  What the two regular expressions capture: either a token, that is a run of characters
  without white space that follows the word and white space and is followed by white space
  or the end; or, when nothing but white space follows the word up to the end of the input,
  white space, which \<open>trim\<close> empties.
\<close>

lemma capture_is_token_or_blank:
  assumes "regex_match word s = Some g"
  shows "(g \<noteq> [] \<and> (\<forall>c\<in>set g. \<not> is_space c) \<and> trim g = g
          \<and> (\<exists>pre w ws rest. s = pre @ w @ ws @ g @ rest
                \<and> toUpperCase w = toUpperCase word
                \<and> ws \<noteq> [] \<and> (\<forall>c\<in>set ws. is_space c) \<and> followed_ok rest))
         \<or> (trim g = [] \<and> s \<noteq> [] \<and> is_space (last s))"
proof -
  from regex_match_leftmost[OF assms] obtain i where
    i: "match_here word (drop i s) = Some g" by blast
  let ?t = "drop i s"
  from match_here_cases[OF i] show ?thesis
  proof
    assume "\<exists>ws rest. drop (length word) ?t = ws @ g @ rest \<and> ws \<noteq> [] \<and> (\<forall>c\<in>set ws. is_space c)
            \<and> g \<noteq> [] \<and> (\<forall>c\<in>set g. \<not> is_space c) \<and> followed_ok rest"
    then obtain ws rest where w: "drop (length word) ?t = ws @ g @ rest" "ws \<noteq> []"
      "\<forall>c\<in>set ws. is_space c" "g \<noteq> []" "\<forall>c\<in>set g. \<not> is_space c" "followed_ok rest"
      by blast
    have "s = take i s @ ?t" by simp
    moreover have "?t = take (length word) ?t @ drop (length word) ?t"
      by (simp only: append_take_drop_id)
    ultimately have "s = take i s @ take (length word) ?t @ drop (length word) ?t"
      by metis
    with w(1) have "s = take i s @ take (length word) ?t @ ws @ g @ rest"
      by (simp only:)
    with w trim_token[OF w(4,5)] match_here_word[OF i] show ?thesis by blast
  next
    assume b: "(\<forall>c\<in>set (drop (length word) ?t). is_space c) \<and> (\<forall>c\<in>set g. is_space c)
             \<and> drop (length word) ?t \<noteq> []"
    then have ne: "drop (length word + i) s \<noteq> []" by simp
    then have "s \<noteq> []" by auto
    moreover have "last s = last (drop (length word + i) s)"
      using ne by (simp add: last_drop)
    moreover have "last (drop (length word + i) s) \<in> set (drop (length word + i) s)"
      using ne by (rule last_in_set)
    ultimately show ?thesis using b trim_spaces[of g] by simp
  qed
qed

text \<open>The order of the keyword rules, and that a query without sentiment has a keyword.\<close>

lemma keyword_precedence:
  "keyword (interpret_query q) =
     (case regex_match ''about'' (toLowerCase q) of
        Some g \<Rightarrow> Some (substring_0_50 (trim g))
      | None \<Rightarrow>
          (case regex_match ''with'' (toLowerCase q) of
             Some g \<Rightarrow> Some (substring_0_50 (trim g))
           | None \<Rightarrow>
               if sentiment (interpret_query q) = None then Some (substring_0_50 (trim q))
               else None))"
  by (simp add: interpret_query_def Let_def split: option.splits)

lemma keyword_set_when_sentiment_unset:
  "sentiment (interpret_query q) = None \<Longrightarrow> keyword (interpret_query q) \<noteq> None"
  by (simp add: keyword_precedence split: option.splits)

text \<open>
  For a query that does not end in white space, the keyword of the "about" and "with" rules
  is the token after the word, cut to 50 characters.
\<close>

lemma keyword_token_without_trailing_space:
  assumes "q \<noteq> []" and "\<not> is_space (last q)"
      and "regex_match word (toLowerCase q) = Some g"
  shows "substring_0_50 (trim g) = take 50 g \<and> g \<noteq> [] \<and> (\<forall>c\<in>set g. \<not> is_space c)
         \<and> (\<exists>pre w ws rest. toLowerCase q = pre @ w @ ws @ g @ rest
               \<and> toUpperCase w = toUpperCase word
               \<and> ws \<noteq> [] \<and> (\<forall>c\<in>set ws. is_space c) \<and> followed_ok rest)"
proof -
  have "last (toLowerCase q) = toLowerCase_char (last q)"
    using assms(1) by (simp add: toLowerCase_def last_map)
  then have "\<not> is_space (last (toLowerCase q))"
    using assms(2) by (simp add: is_space_toLowerCase_char)
  with capture_is_token_or_blank[OF assms(3)] show ?thesis
    by (auto simp: substring_0_50_def)
qed

text \<open>The three queries that the specification works out.\<close>

lemma interpreter_examples:
  "interpret_query ''show me negative feedback about bugs'' =
     \<lparr>sentiment = Some ''negative'', keyword = Some ''bugs''\<rparr>"
  "interpret_query ''great job'' = \<lparr>sentiment = Some ''positive'', keyword = None\<rparr>"
  "interpret_query ''slow loading times'' =
     \<lparr>sentiment = None, keyword = Some ''slow loading times''\<rparr>"
  by code_simp+

text \<open>
  Claim C3 at the query "about" followed by two spaces. No sentiment is found and the query
  has no token after "about", so the keyword should be the trimmed query, "about". The
  regular expression matches all the same: \<open>\s+\<close> gives back the second space, the group
  takes it, and the end of the input follows. The keyword is the empty string.
\<close>

theorem about_trailing_spaces_empty_keyword:
  "interpret_query ''about  '' = \<lparr>sentiment = None, keyword = Some ''''\<rparr>
   \<and> regex_match ''about'' (toLowerCase ''about  '') = Some '' ''
   \<and> trim ''about  '' = ''about''
   \<and> get_api_insights (Some ''about  '') =
        \<lparr>status = 200,
         body = JObj [(''filters'', JObj [(''sentiment'', JNull), (''keyword'', JStr '''')])]\<rparr>"
  by code_simp

text \<open>
  Claim C10. A keyword that comes from the "about" or "with" rule has no upper-case letter
  (it is cut out of the lower-cased query); the fallback keyword, taken when neither rule
  matches and no sentiment was found, is the trimmed query as submitted, cut to 50
  characters, in its own casing.
\<close>

theorem keyword_casing:
  "(regex_match ''about'' (toLowerCase q) \<noteq> None \<or> regex_match ''with'' (toLowerCase q) \<noteq> None
      \<longrightarrow> (\<exists>k. keyword (interpret_query q) = Some k \<and> toLowerCase k = k
                \<and> (\<forall>c\<in>set k. \<not> is_upper c)))
   \<and> (regex_match ''about'' (toLowerCase q) = None \<and> regex_match ''with'' (toLowerCase q) = None
        \<and> sentiment (interpret_query q) = None
      \<longrightarrow> keyword (interpret_query q) = Some (substring_0_50 (trim q)))"
proof -
  have low: "toLowerCase k = k" if "\<forall>c\<in>set k. \<not> is_upper c" for k
    using that by (induction k) (auto simp: toLowerCase_def toLowerCase_char_def)
  show ?thesis
  proof (cases "regex_match ''about'' (toLowerCase q)")
    case (Some g)
    then have "\<forall>c\<in>set (substring_0_50 (trim g)). \<not> is_upper c"
      using capture_lower by blast
    with Some low show ?thesis
      by (simp add: interpret_query_def Let_def)
  next
    case None
    show ?thesis
    proof (cases "regex_match ''with'' (toLowerCase q)")
      case (Some g)
      then have "\<forall>c\<in>set (substring_0_50 (trim g)). \<not> is_upper c"
        using capture_lower by blast
      with None Some low show ?thesis
        by (simp add: interpret_query_def Let_def)
    next
      case n2: None
      with None show ?thesis
        by (simp add: interpret_query_def Let_def)
    qed
  qed
qed

text \<open>One query for the "about" rule and one for the fallback, both with capitals.\<close>

theorem keyword_casing_witness:
  "keyword (interpret_query ''Tell me About LOGIN'') = Some ''login''
   \<and> keyword (interpret_query ''Slow Loading Times'') = Some ''Slow Loading Times''"
proof -
  have a: "regex_match ''about'' (toLowerCase ''Tell me About LOGIN'') = Some ''login''"
    by code_simp
  have b: "interpret_query ''Tell me About LOGIN'' = \<lparr>sentiment = None, keyword = Some ''login''\<rparr>"
    by code_simp
  have c: "regex_match ''about'' (toLowerCase ''Slow Loading Times'') = None"
          "regex_match ''with'' (toLowerCase ''Slow Loading Times'') = None"
          "detect_sentiment (toLowerCase ''Slow Loading Times'') = None"
          "substring_0_50 (trim ''Slow Loading Times'') = ''Slow Loading Times''"
    by code_simp+
  from keyword_casing [of "''Slow Loading Times''"] c
  have "keyword (interpret_query ''Slow Loading Times'') = Some ''Slow Loading Times''"
    by (simp add: interpret_query_def Let_def)
  with b show ?thesis by simp
qed

subsection \<open>Filtered read\<close>

lemma sql_like_percent:
  "sql_like (CHR ''%'' # ps) t \<longleftrightarrow> (\<exists>n\<le>length t. sql_like ps (drop n t))"
proof (induction t)
  case Nil
  then show ?case by simp
next
  case (Cons c cs)
  have "(\<exists>n\<le>length (c # cs). sql_like ps (drop n (c # cs)))
        \<longleftrightarrow> sql_like ps (c # cs) \<or> (\<exists>n\<le>length cs. sql_like ps (drop n cs))"
  proof
    assume "\<exists>n\<le>length (c # cs). sql_like ps (drop n (c # cs))"
    then obtain n where n: "n \<le> length (c # cs)" "sql_like ps (drop n (c # cs))" by blast
    show "sql_like ps (c # cs) \<or> (\<exists>n\<le>length cs. sql_like ps (drop n cs))"
    proof (cases n)
      case 0
      with n show ?thesis by simp
    next
      case (Suc m)
      with n show ?thesis by auto
    qed
  next
    assume "sql_like ps (c # cs) \<or> (\<exists>n\<le>length cs. sql_like ps (drop n cs))"
    then show "\<exists>n\<le>length (c # cs). sql_like ps (drop n (c # cs))"
    proof
      assume "sql_like ps (c # cs)"
      then have "sql_like ps (drop 0 (c # cs))" by simp
      then show ?thesis by blast
    next
      assume "\<exists>n\<le>length cs. sql_like ps (drop n cs)"
      then obtain n where "n \<le> length cs" "sql_like ps (drop n cs)" by blast
      then have "Suc n \<le> length (c # cs)" "sql_like ps (drop (Suc n) (c # cs))" by simp_all
      then show ?thesis by blast
    qed
  qed
  with Cons show ?case by simp
qed

lemma sql_like_only_percent: "sql_like ''%'' t"
  using sql_like_percent[of "[]" t] by auto

lemma sql_like_literal:
  assumes "CHR ''%'' \<notin> set k" and "CHR ''_'' \<notin> set k"
  shows "sql_like (k @ ''%'') t \<longleftrightarrow> prefix (toUpperCase k) (toUpperCase t)"
  using assms
proof (induction k arbitrary: t)
  case Nil
  then show ?case by (simp add: sql_like_only_percent toUpperCase_def)
next
  case (Cons p ps)
  then show ?case
    by (cases t) (auto simp: toUpperCase_def)
qed

text \<open>
  For a keyword without \<open>%\<close> and \<open>_\<close> the pattern of the filtered read finds exactly the
  texts that contain the keyword, without regard to the case of ASCII letters.
\<close>

lemma sql_like_substring:
  assumes "CHR ''%'' \<notin> set k" and "CHR ''_'' \<notin> set k"
  shows "sql_like (''%'' @ k @ ''%'') t \<longleftrightarrow> sublist (toUpperCase k) (toUpperCase t)"
proof -
  have "sql_like (''%'' @ k @ ''%'') t \<longleftrightarrow> (\<exists>n\<le>length t. prefix (toUpperCase k) (toUpperCase (drop n t)))"
    using sql_like_percent[of "k @ ''%''" t] sql_like_literal[OF assms] by simp
  also have "\<dots> \<longleftrightarrow> (\<exists>n\<le>length t. prefix (toUpperCase k) (drop n (toUpperCase t)))"
    by (simp add: toUpperCase_def drop_map)
  also have "\<dots> \<longleftrightarrow> sublist (toUpperCase k) (toUpperCase t)"
  proof
    assume "\<exists>n\<le>length t. prefix (toUpperCase k) (drop n (toUpperCase t))"
    then obtain n where "prefix (toUpperCase k) (drop n (toUpperCase t))" by blast
    moreover have "suffix (drop n (toUpperCase t)) (toUpperCase t)" by (rule suffix_drop)
    ultimately show "sublist (toUpperCase k) (toUpperCase t)"
      unfolding sublist_altdef' by blast
  next
    assume "sublist (toUpperCase k) (toUpperCase t)"
    then obtain ys where ys: "suffix ys (toUpperCase t)" "prefix (toUpperCase k) ys"
      unfolding sublist_altdef' by blast
    then obtain zs where zs: "toUpperCase t = zs @ ys" by (auto simp: suffix_def)
    then have "ys = drop (length zs) (toUpperCase t)" "length zs \<le> length t"
      by (simp_all add: toUpperCase_def) (metis length_append length_map le_add1)
    with ys show "\<exists>n\<le>length t. prefix (toUpperCase k) (drop n (toUpperCase t))"
      by metis
  qed
  finally show ?thesis .
qed





text \<open>
  What the conditions of the filtered read mean for a row, for a keyword without wildcards
  whose pattern D1 accepts.
\<close>

lemma eval_where_meaning:
  assumes "CHR ''%'' \<notin> set k" and "CHR ''_'' \<notin> set k" and "k \<noteq> []" and "length k \<le> 48"
      and "s \<noteq> []"
  shows "eval_where (build_conds (Some s) (Some k)) r =
           Some (sentiment_col r = SText s \<and> sublist (toUpperCase k) (toUpperCase (text_col r)))"
    and "eval_where (build_conds None (Some k)) r =
           Some (sublist (toUpperCase k) (toUpperCase (text_col r)))"
    and "eval_where (build_conds (Some s) None) r = Some (sentiment_col r = SText s)"
    and "eval_where (build_conds None None) r = Some True"
  using assms sql_like_substring[OF assms(1,2), of "text_col r"]
  by (simp_all add: build_conds_def like_pattern_limit_def)

text \<open>
  The statement fails exactly when some row makes a condition fail. The rows returned
  satisfy every condition, are at most 50, and are all the rows that satisfy the
  conditions when these are at most 50.
\<close>

lemma set_order_by_created_at_desc: "set (order_by_created_at_desc rs) = set rs"
  by (simp add: order_by_created_at_desc_def)


lemma select_feedback_sound:
  assumes "select_feedback conds rs = Some res"
  shows "set res \<subseteq> {r \<in> set rs. eval_where conds r = Some True}"
  using assms
  by (auto simp: select_feedback_def set_order_by_created_at_desc split: if_splits
      dest!: in_set_takeD)

lemma select_feedback_limit:
  assumes "select_feedback conds rs = Some res"
  shows "length res \<le> 50"
  using assms by (auto simp: select_feedback_def split: if_splits)

lemma select_feedback_all_when_few:
  assumes "select_feedback conds rs = Some res"
      and "length (filter (\<lambda>r. eval_where conds r = Some True) rs) \<le> 50"
  shows "set res = {r \<in> set rs. eval_where conds r = Some True}"
proof -
  have "length (order_by_created_at_desc (filter (\<lambda>r. eval_where conds r = Some True) rs)) \<le> 50"
    using assms(2) by (simp add: order_by_created_at_desc_def)
  with assms(1) show ?thesis
    by (auto simp: select_feedback_def set_order_by_created_at_desc split: if_splits)
qed

text \<open>Later rows first; rows of equal time in the order of their insertion.\<close>

lemma order_by_created_at_desc_ties:
  "order_by_created_at_desc
     [\<lparr>id_col = 1, text_col = ''x1'', source_col = SNull, sentiment_col = SText ''neutral'',
       created_at = ''2026-02-01''\<rparr>,
      \<lparr>id_col = 2, text_col = ''x2'', source_col = SNull, sentiment_col = SText ''neutral'',
       created_at = ''2026-02-01''\<rparr>,
      \<lparr>id_col = 3, text_col = ''x3'', source_col = SNull, sentiment_col = SText ''neutral'',
       created_at = ''2026-03-01''\<rparr>] =
     [\<lparr>id_col = 3, text_col = ''x3'', source_col = SNull, sentiment_col = SText ''neutral'',
       created_at = ''2026-03-01''\<rparr>,
      \<lparr>id_col = 1, text_col = ''x1'', source_col = SNull, sentiment_col = SText ''neutral'',
       created_at = ''2026-02-01''\<rparr>,
      \<lparr>id_col = 2, text_col = ''x2'', source_col = SNull, sentiment_col = SText ''neutral'',
       created_at = ''2026-02-01''\<rparr>]"
  by code_simp

text \<open>
  Claim C6 at the keyword \<open>100%\<close> and a table whose one row has the text
  "I paid 100 dollars". The text does not contain the keyword, so the filtered read should
  return nothing. The keyword goes into the pattern without escaping, its \<open>%\<close> acts as a
  wildcard, and the row is returned.
\<close>

theorem like_wildcard_finds_other_text:
  "select_feedback (build_conds None (Some ''100%''))
     [\<lparr>id_col = 1, text_col = ''I paid 100 dollars'', source_col = SNull,
       sentiment_col = SText ''neutral'', created_at = ''2026-01-01T00:00:00.000Z''\<rparr>] =
     Some [\<lparr>id_col = 1, text_col = ''I paid 100 dollars'', source_col = SNull,
       sentiment_col = SText ''neutral'', created_at = ''2026-01-01T00:00:00.000Z''\<rparr>]
   \<and> sublist (toLowerCase ''100%'') (toLowerCase ''I paid 100 dollars'') = False
   \<and> get_api_feedback \<lparr>ai_run = (\<lambda>t. None), db_up = True, now = ''2026-01-02T00:00:00.000Z'',
           number_text = (\<lambda>n. SNull)\<rparr>
        \<lparr>rows = [\<lparr>id_col = 1, text_col = ''I paid 100 dollars'', source_col = SNull,
                   sentiment_col = SText ''neutral'', created_at = ''2026-01-01T00:00:00.000Z''\<rparr>],
         last_id = 1, ai_calls = [''I paid 100 dollars'']\<rparr>
        None (Some ''100%'') =
      \<lparr>status = 200,
       body = JObj [(''feedback'',
                JArr [JObj [(''id'', JNum (Fin 1)), (''text'', JStr ''I paid 100 dollars''),
                            (''source'', JNull), (''sentiment'', JStr ''neutral''),
                            (''created_at'', JStr ''2026-01-01T00:00:00.000Z'')]])]\<rparr>"
  by code_simp

subsection \<open>Length of the keyword\<close>







end
